theory Spec2Isabelle
  imports Complex_Main "HOL-Library.AList" "HOL-Library.Log_Nat"
    "HOL-Library.Code_Target_Numeral"
begin

section \<open>The account chaincode of asset-transfer-basic (smartcontract.go)\<close>

text \<open>
  The contract is a stateless layer over the world state of the ledger, which it reaches
  through the stub of the transaction context. This theory embeds every function of
  \<^verbatim>\<open>smartcontract.go\<close> as a function over an explicit world state.

  Three things the Go code only uses are not code of the contract and are modelled by
  their contracts:
  \<^item> \<^verbatim>\<open>float64\<close> is IEEE 754 binary64: the finite values, the two infinities and
    NaN, with sums and differences rounded to the nearest value, ties to even;
  \<^item> \<^verbatim>\<open>encoding/json\<close>: \<^verbatim>\<open>Marshal\<close> refuses a balance that is not finite and
    replaces every byte of a string that is not part of valid UTF-8 by U+FFFD; a stored
    value is either bytes that decode to an account or bytes that do not decode;
  \<^item> the stub is a key-value store whose calls can fail; which calls fail during one
    invocation is a parameter of that invocation.
\<close>

subsection \<open>float64\<close>

text \<open>
  A \<^verbatim>\<open>float64\<close> is a finite value, an infinity or NaN. A finite value is held as the
  real number it stands for; the two zeros are not told apart. The results of the
  operations below are \<^verbatim>\<open>float64\<close> values; the type also holds reals that are not.
\<close>

datatype float64 = Finite real | PosInf | NegInf | NaN

text \<open>The nearest integer, a tie going to the even one.\<close>

definition round_half_even :: "real \<Rightarrow> int" where
  "round_half_even r =
     (let f = \<lfloor>r\<rfloor>; d = r - of_int f in
      if d < 1 / 2 then f
      else if 1 / 2 < d then f + 1
      else if even f then f else f + 1)"

text \<open>For \<open>0 < a\<close>, the exponent \<open>e\<close> with \<open>2 ^ e \<le> a < 2 ^ (e + 1)\<close>.\<close>

definition binade :: "real \<Rightarrow> int" where
  "binade a =
     (if 1 \<le> a then int (floorlog 2 (nat \<lfloor>a\<rfloor>)) - 1
      else - int (floorlog 2 (nat (\<lceil>1 / a\<rceil> - 1))))"

text \<open>\<open>a\<close> times \<open>2\<close> to the power \<open>n\<close>.\<close>

definition scale2 :: "real \<Rightarrow> int \<Rightarrow> real" where
  "scale2 a n = (if 0 \<le> n then a * 2 ^ nat n else a / 2 ^ nat (- n))"

text \<open>
  The binary64 value nearest to \<open>0 \<le> a\<close>: a multiple of \<open>2 ^ q\<close>, where \<open>q\<close> leaves
  53 bits to a normal value and is \<open>-1074\<close> for a subnormal one.
\<close>

definition nearest :: "real \<Rightarrow> real" where
  "nearest a =
     (if a = 0 then 0
      else let q = max (binade a) (- 1022) - 52
           in scale2 (of_int (round_half_even (scale2 a (- q)))) q)"

text \<open>
  Rounding of an exact result. From \<open>2 ^ 1024 - 2 ^ 970\<close> on, half a unit above the
  largest finite value, the result is an infinity.
\<close>

definition round64 :: "real \<Rightarrow> float64" where
  "round64 x =
     (if 2 ^ 1024 - 2 ^ 970 \<le> \<bar>x\<bar> then (if 0 < x then PosInf else NegInf)
      else if x < 0 then Finite (- nearest (- x)) else Finite (nearest x))"

fun fneg :: "float64 \<Rightarrow> float64" where
  "fneg (Finite x) = Finite (- x)"
| "fneg PosInf = NegInf"
| "fneg NegInf = PosInf"
| "fneg NaN = NaN"

text \<open>Go's \<^verbatim>\<open>x + y\<close> and \<^verbatim>\<open>x - y\<close> on \<^verbatim>\<open>float64\<close>.\<close>

fun fadd :: "float64 \<Rightarrow> float64 \<Rightarrow> float64" where
  "fadd (Finite x) (Finite y) = round64 (x + y)"
| "fadd NaN y = NaN"
| "fadd x NaN = NaN"
| "fadd PosInf NegInf = NaN"
| "fadd NegInf PosInf = NaN"
| "fadd PosInf y = PosInf"
| "fadd x PosInf = PosInf"
| "fadd NegInf y = NegInf"
| "fadd x NegInf = NegInf"

definition fsub :: "float64 \<Rightarrow> float64 \<Rightarrow> float64" where
  "fsub x y = fadd x (fneg y)"

text \<open>Go's \<^verbatim>\<open>x < y\<close> and \<^verbatim>\<open>x <= y\<close> on \<^verbatim>\<open>float64\<close>: false when either is NaN.\<close>

fun flt :: "float64 \<Rightarrow> float64 \<Rightarrow> bool" where
  "flt NaN y = False"
| "flt x NaN = False"
| "flt (Finite x) (Finite y) = (x < y)"
| "flt x PosInf = (x \<noteq> PosInf)"
| "flt PosInf y = False"
| "flt NegInf y = (y \<noteq> NegInf)"
| "flt x NegInf = False"

fun fle :: "float64 \<Rightarrow> float64 \<Rightarrow> bool" where
  "fle NaN y = False"
| "fle x NaN = False"
| "fle (Finite x) (Finite y) = (x \<le> y)"
| "fle x PosInf = True"
| "fle PosInf y = False"
| "fle NegInf y = True"
| "fle x NegInf = False"

subsection \<open>Strings and UTF-8\<close>

text \<open>
  A Go string is a sequence of bytes. \<open>rune_len s\<close> is the number of bytes of the
  UTF-8 encoding that \<open>s\<close> starts with, and \<open>0\<close> when it starts with none
  (\<^verbatim>\<open>utf8.DecodeRuneInString\<close> then gives \<^verbatim>\<open>RuneError\<close> with size 1): a lead byte fixes
  the length and the range of the second byte, which keeps out encodings that are too
  long, surrogates and values above U+10FFFF.
\<close>

definition between :: "char \<Rightarrow> nat \<Rightarrow> nat \<Rightarrow> bool" where
  "between b lo hi = (lo \<le> of_char b \<and> of_char b \<le> hi)"

fun rune_len :: "string \<Rightarrow> nat" where
  "rune_len [] = 0"
| "rune_len (b0 # rest) =
     (let n0 = (of_char b0 :: nat) in
      if n0 < 0x80 then 1
      else if n0 < 0xC2 then 0
      else if n0 < 0xE0 then
        (case rest of
           b1 # _ \<Rightarrow> if between b1 0x80 0xBF then 2 else 0
         | _ \<Rightarrow> 0)
      else if n0 < 0xF0 then
        (case rest of
           b1 # b2 # _ \<Rightarrow>
             if between b1 (if n0 = 0xE0 then 0xA0 else 0x80) (if n0 = 0xED then 0x9F else 0xBF)
                \<and> between b2 0x80 0xBF
             then 3 else 0
         | _ \<Rightarrow> 0)
      else if n0 < 0xF5 then
        (case rest of
           b1 # b2 # b3 # _ \<Rightarrow>
             if between b1 (if n0 = 0xF0 then 0x90 else 0x80) (if n0 = 0xF4 then 0x8F else 0xBF)
                \<and> between b2 0x80 0xBF \<and> between b3 0x80 0xBF
             then 4 else 0
         | _ \<Rightarrow> 0)
      else 0)"

text \<open>The UTF-8 encoding of U+FFFD.\<close>

definition replacement :: string where
  "replacement = [CHR 0xEF, CHR 0xBF, CHR 0xBD]"

text \<open>
  What a string is after \<^verbatim>\<open>json.Marshal\<close> and \<^verbatim>\<open>json.Unmarshal\<close>: every byte that
  starts no valid encoding is replaced by U+FFFD, everything else is kept.
\<close>

fun utf8_coerce :: "string \<Rightarrow> string" where
  "utf8_coerce [] = []"
| "utf8_coerce (b0 # rest) =
     (case rune_len (b0 # rest) of
        0 \<Rightarrow> replacement @ utf8_coerce rest
      | Suc n \<Rightarrow> b0 # take n rest @ utf8_coerce (drop n rest))"

definition valid_utf8 :: "string \<Rightarrow> bool" where
  "valid_utf8 s = (utf8_coerce s = s)"

subsection \<open>Data\<close>

text \<open>\<^verbatim>\<open>type Account struct { ID string; Owner string; Balance float64 }\<close>\<close>

record Account =
  ID :: string
  Owner :: string
  Balance :: float64

text \<open>
  A value held in the world state (\<^verbatim>\<open>[]byte\<close>), seen through the codec:
  \<open>Encoded a\<close> is a byte string that decodes to the account \<open>a\<close>,
  \<open>Malformed s\<close> is a byte string \<open>s\<close> that does not decode to an account.
  Decoding only gives accounts with a finite balance and strings of valid UTF-8; the
  type holds more, and what is proved of every \<open>Encoded a\<close> holds of those.
\<close>

datatype bytes = Encoded Account | Malformed string

text \<open>The world state: keys with their values, in the iteration order of the store.\<close>

type_synonym world = "(string \<times> bytes) list"

text \<open>
  The errors the contract returns. Go builds each as a message; the constructor keeps
  the message's format and its argument:
  \<^item> \<open>StubError e\<close>: the stub's error \<open>e\<close> passed on unchanged (\<^verbatim>\<open>return err\<close>);
  \<^item> \<open>MarshalError\<close>, \<open>UnmarshalError\<close>: the codec's error passed on unchanged;
  \<^item> \<open>FailedToPut e\<close>: \<^verbatim>\<open>"failed to put to world state: %v"\<close>;
  \<^item> \<open>FailedToRead e\<close>: \<^verbatim>\<open>"failed to read from world state: %v"\<close>;
  \<^item> \<open>AlreadyExists k\<close>: \<^verbatim>\<open>"the account %s already exists"\<close>;
  \<^item> \<open>DoesNotExist k\<close>: \<^verbatim>\<open>"the account %s does not exist"\<close>;
  \<^item> \<open>InsufficientFunds k\<close>: \<^verbatim>\<open>"insufficient funds in the account %s"\<close>.
\<close>

datatype error =
    StubError string
  | MarshalError
  | UnmarshalError
  | FailedToPut string
  | FailedToRead string
  | AlreadyExists string
  | DoesNotExist string
  | InsufficientFunds string

subsection \<open>The transaction context and its stub\<close>

text \<open>
  A transaction context gives the stub for one invocation. What the contract cannot
  decide is which calls of the stub fail: each field gives the error of a call
  (\<open>None\<close>: the call succeeds). \<open>next_fault i\<close> is the error of the \<open>i\<close>-th call
  of \<^verbatim>\<open>Next\<close> on the range iterator.
\<close>

record ctx =
  get_fault :: "string \<Rightarrow> string option"
  put_fault :: "string \<Rightarrow> bytes \<Rightarrow> string option"
  del_fault :: "string \<Rightarrow> string option"
  range_fault :: "string option"
  next_fault :: "nat \<Rightarrow> string option"

text \<open>A context whose stub never fails.\<close>

definition no_faults :: ctx where
  "no_faults =
     \<lparr>get_fault = (\<lambda>k. None), put_fault = (\<lambda>k v. None), del_fault = (\<lambda>k. None),
      range_fault = None, next_fault = (\<lambda>i. None)\<rparr>"

text \<open>\<^verbatim>\<open>GetState(key)\<close>: the value under the key, \<open>None\<close> (Go's nil) when absent.\<close>

definition GetState :: "ctx \<Rightarrow> string \<Rightarrow> world \<Rightarrow> string + bytes option" where
  "GetState c key w =
     (case get_fault c key of
        Some e \<Rightarrow> Inl e
      | None \<Rightarrow> Inr (map_of w key))"

text \<open>\<^verbatim>\<open>PutState(key, value)\<close>: the world with the value under the key, or the error.\<close>

definition PutState :: "ctx \<Rightarrow> string \<Rightarrow> bytes \<Rightarrow> world \<Rightarrow> string + world" where
  "PutState c key v w =
     (case put_fault c key v of
        Some e \<Rightarrow> Inl e
      | None \<Rightarrow> Inr (AList.update key v w))"

text \<open>\<^verbatim>\<open>DelState(key)\<close>: the world without the key, or the error.\<close>

definition DelState :: "ctx \<Rightarrow> string \<Rightarrow> world \<Rightarrow> string + world" where
  "DelState c key w =
     (case del_fault c key of
        Some e \<Rightarrow> Inl e
      | None \<Rightarrow> Inr (AList.delete key w))"

text \<open>
  \<^verbatim>\<open>GetStateByRange("", "")\<close>: an iterator over every key of the world state, here the
  entries still to be returned, in the order of the store.
\<close>

definition GetStateByRange :: "ctx \<Rightarrow> world \<Rightarrow> string + (string \<times> bytes) list" where
  "GetStateByRange c w =
     (case range_fault c of
        Some e \<Rightarrow> Inl e
      | None \<Rightarrow> Inr w)"

subsection \<open>The codec\<close>

text \<open>The account with its two strings as they are after encoding and decoding.\<close>

definition coerced :: "Account \<Rightarrow> Account" where
  "coerced account =
     account\<lparr>ID := utf8_coerce (ID account), Owner := utf8_coerce (Owner account)\<rparr>"

text \<open>
  \<^verbatim>\<open>json.Marshal(account)\<close>: an error for a balance that is not finite
  (\<^verbatim>\<open>UnsupportedValueError\<close>); otherwise bytes that decode to the account with the
  same balance (the number is written so that it reads back as the same
  \<^verbatim>\<open>float64\<close>) and with its strings coerced.
\<close>

definition json_Marshal :: "Account \<Rightarrow> error + bytes" where
  "json_Marshal account =
     (case Balance account of
        Finite x \<Rightarrow> Inr (Encoded (coerced account))
      | _ \<Rightarrow> Inl MarshalError)"

text \<open>\<^verbatim>\<open>json.Unmarshal(accountJSON, &account)\<close>\<close>

fun json_Unmarshal :: "bytes \<Rightarrow> error + Account" where
  "json_Unmarshal (Encoded account) = Inr account"
| "json_Unmarshal (Malformed s) = Inl UnmarshalError"

subsection \<open>The contract\<close>

text \<open>
  Every function takes the context and the world state. A function that only reads
  returns \<open>error + result\<close>; one that writes returns its result with the world state it
  leaves, which on an error holds the writes made before the error.
\<close>

text \<open>\<^verbatim>\<open>AccountExists\<close> (lines 126-133)\<close>

definition AccountExists :: "ctx \<Rightarrow> string \<Rightarrow> world \<Rightarrow> error + bool" where
  "AccountExists c aid w =
     (case GetState c aid w of
        Inl err \<Rightarrow> Inl (FailedToRead err)
      | Inr accountJSON \<Rightarrow> Inr (accountJSON \<noteq> None))"

text \<open>\<^verbatim>\<open>ReadAccount\<close> (lines 71-87)\<close>

definition ReadAccount :: "ctx \<Rightarrow> string \<Rightarrow> world \<Rightarrow> error + Account" where
  "ReadAccount c aid w =
     (case GetState c aid w of
        Inl err \<Rightarrow> Inl (FailedToRead err)
      | Inr None \<Rightarrow> Inl (DoesNotExist aid)
      | Inr (Some accountJSON) \<Rightarrow> json_Unmarshal accountJSON)"

text \<open>\<^verbatim>\<open>CreateAccount\<close> (lines 48-68)\<close>

definition CreateAccount ::
  "ctx \<Rightarrow> string \<Rightarrow> string \<Rightarrow> float64 \<Rightarrow> world \<Rightarrow> (error + unit) \<times> world" where
  "CreateAccount c aid owner balance w =
     (case AccountExists c aid w of
        Inl err \<Rightarrow> (Inl err, w)
      | Inr ex \<Rightarrow>
          if ex then (Inl (AlreadyExists aid), w)
          else
            (case json_Marshal \<lparr>ID = aid, Owner = owner, Balance = balance\<rparr> of
               Inl err \<Rightarrow> (Inl err, w)
             | Inr accountJSON \<Rightarrow>
                 (case PutState c aid accountJSON w of
                    Inl err \<Rightarrow> (Inl (StubError err), w)
                  | Inr w' \<Rightarrow> (Inr (), w'))))"

text \<open>\<^verbatim>\<open>UpdateAccount\<close> (lines 90-110)\<close>

definition UpdateAccount ::
  "ctx \<Rightarrow> string \<Rightarrow> string \<Rightarrow> float64 \<Rightarrow> world \<Rightarrow> (error + unit) \<times> world" where
  "UpdateAccount c aid owner balance w =
     (case AccountExists c aid w of
        Inl err \<Rightarrow> (Inl err, w)
      | Inr ex \<Rightarrow>
          if \<not> ex then (Inl (DoesNotExist aid), w)
          else
            (case json_Marshal \<lparr>ID = aid, Owner = owner, Balance = balance\<rparr> of
               Inl err \<Rightarrow> (Inl err, w)
             | Inr accountJSON \<Rightarrow>
                 (case PutState c aid accountJSON w of
                    Inl err \<Rightarrow> (Inl (StubError err), w)
                  | Inr w' \<Rightarrow> (Inr (), w'))))"

text \<open>\<^verbatim>\<open>DeleteAccount\<close> (lines 113-123)\<close>

definition DeleteAccount :: "ctx \<Rightarrow> string \<Rightarrow> world \<Rightarrow> (error + unit) \<times> world" where
  "DeleteAccount c aid w =
     (case AccountExists c aid w of
        Inl err \<Rightarrow> (Inl err, w)
      | Inr ex \<Rightarrow>
          if \<not> ex then (Inl (DoesNotExist aid), w)
          else
            (case DelState c aid w of
               Inl err \<Rightarrow> (Inl (StubError err), w)
             | Inr w' \<Rightarrow> (Inr (), w')))"

text \<open>
  \<^verbatim>\<open>GetAllAccounts\<close> (lines 136-160). The loop runs while the iterator has a next
  entry; \<open>i\<close> counts the calls of \<^verbatim>\<open>Next\<close>, \<open>accounts\<close> is the slice appended to.
\<close>

fun GetAllAccounts_loop ::
  "ctx \<Rightarrow> nat \<Rightarrow> (string \<times> bytes) list \<Rightarrow> Account list \<Rightarrow> error + Account list" where
  "GetAllAccounts_loop c i [] accounts = Inr accounts"
| "GetAllAccounts_loop c i (queryResponse # rest) accounts =
     (case next_fault c i of
        Some err \<Rightarrow> Inl (StubError err)
      | None \<Rightarrow>
          (case json_Unmarshal (snd queryResponse) of
             Inl err \<Rightarrow> Inl err
           | Inr account \<Rightarrow> GetAllAccounts_loop c (Suc i) rest (accounts @ [account])))"

definition GetAllAccounts :: "ctx \<Rightarrow> world \<Rightarrow> error + Account list" where
  "GetAllAccounts c w =
     (case GetStateByRange c w of
        Inl err \<Rightarrow> Inl (StubError err)
      | Inr resultsIterator \<Rightarrow> GetAllAccounts_loop c 0 resultsIterator [])"

text \<open>
  \<^verbatim>\<open>TransferFunds\<close> (lines 163-199). The two accounts are read into two separate
  structs, also when \<open>fromID = toID\<close>; both are changed in memory, then written, the
  source first.
\<close>

definition TransferFunds ::
  "ctx \<Rightarrow> string \<Rightarrow> string \<Rightarrow> float64 \<Rightarrow> world \<Rightarrow> (error + unit) \<times> world" where
  "TransferFunds c fromID toID amount w =
     (case ReadAccount c fromID w of
        Inl err \<Rightarrow> (Inl err, w)
      | Inr fromAccount \<Rightarrow>
     (case ReadAccount c toID w of
        Inl err \<Rightarrow> (Inl err, w)
      | Inr toAccount \<Rightarrow>
          if flt (Balance fromAccount) amount then (Inl (InsufficientFunds fromID), w)
          else
            (case json_Marshal (fromAccount\<lparr>Balance := fsub (Balance fromAccount) amount\<rparr>) of
               Inl err \<Rightarrow> (Inl err, w)
             | Inr fromAccountJSON \<Rightarrow>
            (case PutState c fromID fromAccountJSON w of
               Inl err \<Rightarrow> (Inl (StubError err), w)
             | Inr w1 \<Rightarrow>
            (case json_Marshal (toAccount\<lparr>Balance := fadd (Balance toAccount) amount\<rparr>) of
               Inl err \<Rightarrow> (Inl err, w1)
             | Inr toAccountJSON \<Rightarrow>
            (case PutState c toID toAccountJSON w1 of
               Inl err \<Rightarrow> (Inl (StubError err), w1)
             | Inr w2 \<Rightarrow> (Inr (), w2)))))))"

text \<open>\<^verbatim>\<open>InitLedger\<close> (lines 22-45): the seed accounts, and the loop that writes them.\<close>

definition accounts :: "Account list" where
  "accounts =
     [\<lparr>ID = ''account1'', Owner = ''Tomoko'', Balance = Finite 1000\<rparr>,
      \<lparr>ID = ''account2'', Owner = ''Brad'', Balance = Finite 2000\<rparr>,
      \<lparr>ID = ''account3'', Owner = ''Jin Soo'', Balance = Finite 3000\<rparr>,
      \<lparr>ID = ''account4'', Owner = ''Max'', Balance = Finite 4000\<rparr>,
      \<lparr>ID = ''account5'', Owner = ''Adriana'', Balance = Finite 5000\<rparr>,
      \<lparr>ID = ''account6'', Owner = ''Michel'', Balance = Finite 6000\<rparr>]"

fun InitLedger_loop :: "ctx \<Rightarrow> Account list \<Rightarrow> world \<Rightarrow> (error + unit) \<times> world" where
  "InitLedger_loop c [] w = (Inr (), w)"
| "InitLedger_loop c (account # rest) w =
     (case json_Marshal account of
        Inl err \<Rightarrow> (Inl err, w)
      | Inr accountJSON \<Rightarrow>
          (case PutState c (ID account) accountJSON w of
             Inl err \<Rightarrow> (Inl (FailedToPut err), w)
           | Inr w' \<Rightarrow> InitLedger_loop c rest w'))"

definition InitLedger :: "ctx \<Rightarrow> world \<Rightarrow> (error + unit) \<times> world" where
  "InitLedger c w = InitLedger_loop c accounts w"

subsection \<open>Invocations and reachable world states\<close>

text \<open>
  The functions of the contract that write, as the transactions a caller can submit.
  \<open>run\<close> applies a sequence of invocations, each with its own context, and keeps the
  world state an invocation leaves also when it returns an error.
\<close>

datatype invocation =
    Initialize
  | Create string string float64
  | Update string string float64
  | Delete string
  | Transfer string string float64

fun invoke :: "ctx \<Rightarrow> invocation \<Rightarrow> world \<Rightarrow> (error + unit) \<times> world" where
  "invoke c Initialize w = InitLedger c w"
| "invoke c (Create aid owner balance) w = CreateAccount c aid owner balance w"
| "invoke c (Update aid owner balance) w = UpdateAccount c aid owner balance w"
| "invoke c (Delete aid) w = DeleteAccount c aid w"
| "invoke c (Transfer fromID toID amount) w = TransferFunds c fromID toID amount w"

fun run :: "(ctx \<times> invocation) list \<Rightarrow> world \<Rightarrow> world" where
  "run [] w = w"
| "run ((c, call) # rest) w = run rest (snd (invoke c call w))"

subsection \<open>Properties of a world state\<close>



text \<open>Every account held in the world state has a non-empty ID.\<close>

fun id_nonempty :: "string \<times> bytes \<Rightarrow> bool" where
  "id_nonempty (k, Encoded a) = (ID a \<noteq> [])"
| "id_nonempty (k, Malformed s) = True"

definition ids_nonempty :: "world \<Rightarrow> bool" where
  "ids_nonempty w = list_all id_nonempty w"

text \<open>An entry with a non-empty key whose account, if it holds one, has a non-empty ID.\<close>

definition nonempty_entry :: "string \<times> bytes \<Rightarrow> bool" where
  "nonempty_entry e = (fst e \<noteq> [] \<and> id_nonempty e)"


text \<open>
  An invocation cannot store under the empty key: it is not a \<open>Create\<close> with the empty
  id, or \<open>Create\<close> makes no write (the account does not encode) or its stub rejects
  the write.
\<close>

fun empty_id_excluded :: "ctx \<times> invocation \<Rightarrow> bool" where
  "empty_id_excluded (c, Create aid owner balance) =
     (aid \<noteq> [] \<or>
      (case json_Marshal \<lparr>ID = aid, Owner = owner, Balance = balance\<rparr> of
         Inl err \<Rightarrow> True
       | Inr accountJSON \<Rightarrow> put_fault c aid accountJSON \<noteq> None))"
| "empty_id_excluded (c, call) = True"


text \<open>
  The sum of the stored balances of the accounts under \<open>fromID\<close> and \<open>toID\<close>, read
  through \<open>ReadAccount\<close> on a stub that does not fail and added as \<^verbatim>\<open>float64\<close>.
\<close>

definition pair_sum :: "string \<Rightarrow> string \<Rightarrow> world \<Rightarrow> error + float64" where
  "pair_sum fromID toID w =
     (case ReadAccount no_faults fromID w of
        Inl err \<Rightarrow> Inl err
      | Inr fromAccount \<Rightarrow>
          (case ReadAccount no_faults toID w of
             Inl err \<Rightarrow> Inl err
           | Inr toAccount \<Rightarrow> Inr (fadd (Balance fromAccount) (Balance toAccount))))"

section \<open>Lemmas\<close>

subsection \<open>float64 arithmetic that is exact\<close>

lemma round_half_even_of_int [simp]: "round_half_even (of_int n) = n"
  by (simp add: round_half_even_def)

lemma nearest_of_nat:
  assumes "0 < n" and "n < 2 ^ 53"
  shows "nearest (real n) = real n"
proof -
  have f1: "1 \<le> floorlog 2 n" using assms(1) by (simp add: floorlog_def)
  have f2: "floorlog 2 n \<le> 53" using assms(2) by (intro floorlog_leI) simp_all
  have b: "binade (real n) = int (floorlog 2 n) - 1"
    using assms(1) by (simp add: binade_def)
  define q where "q = max (binade (real n)) (- 1022) - 52"
  have q: "q = int (floorlog 2 n) - 53" "q \<le> 0" using f1 f2 by (simp_all add: q_def b)
  have s: "scale2 (real n) (- q) = of_int (int n * 2 ^ nat (- q))"
    using q(2) by (simp add: scale2_def)
  have "scale2 (of_int (round_half_even (scale2 (real n) (- q)))) q = real n"
    unfolding s round_half_even_of_int using q(2) by (simp add: scale2_def)
  then show ?thesis using assms(1) by (simp add: nearest_def q_def Let_def)
qed

lemma round64_of_int:
  assumes "\<bar>n\<bar> < 2 ^ 53"
  shows "round64 (of_int n) = Finite (of_int n)"
proof -
  have small: "\<bar>real_of_int n\<bar> < 2 ^ 53"
    using assms by (metis of_int_abs of_int_less_numeral_power_cancel_iff)
  have "(2::real) ^ 53 \<le> 2 ^ 1024 - 2 ^ 970" by simp
  with small have nov: "\<not> 2 ^ 1024 - 2 ^ 970 \<le> \<bar>real_of_int n\<bar>" by linarith
  consider "n = 0" | "0 < n" | "n < 0" by linarith
  then show ?thesis
  proof cases
    case 1
    then show ?thesis by (simp add: round64_def nearest_def)
  next
    case 2
    then have "nearest (real (nat n)) = real (nat n)"
      using assms by (intro nearest_of_nat) (simp_all add: nat_less_iff)
    then show ?thesis using 2 nov by (simp add: round64_def)
  next
    case 3
    then have "nearest (real (nat (- n))) = real (nat (- n))"
      using assms by (intro nearest_of_nat) (simp_all add: nat_less_iff)
    then show ?thesis using 3 nov by (simp add: round64_def)
  qed
qed

lemma fadd_of_int:
  "\<bar>m + n\<bar> < 2 ^ 53 \<Longrightarrow>
   fadd (Finite (of_int m)) (Finite (of_int n)) = Finite (of_int (m + n))"
  using round64_of_int[of "m + n"] by simp

lemma fsub_of_int:
  "\<bar>m - n\<bar> < 2 ^ 53 \<Longrightarrow>
   fsub (Finite (of_int m)) (Finite (of_int n)) = Finite (of_int (m - n))"
  using round64_of_int[of "m - n"] by (simp add: fsub_def)

lemma fle_not_flt: "fle x y \<Longrightarrow> \<not> flt y x"
  by (cases x; cases y) auto

text \<open>
  An exact result that is not a \<^verbatim>\<open>float64\<close> value is rounded: \<open>2 ^ 53 + 1\<close> lies
  half way between two values and goes to the even one.
\<close>

lemma floorlog_54: "floorlog 2 (2 ^ 53 + 1) = 54"
proof -
  have "floorlog 2 (2 ^ 53 + 1) \<le> 54" by (intro floorlog_leI) simp_all
  moreover have "54 \<le> floorlog 2 (2 ^ 53 + 1)" by (intro floorlog_geI) simp_all
  ultimately show ?thesis by simp
qed

lemma round64_tie_even: "round64 (2 ^ 53 + 1) = Finite (2 ^ 53)"
proof -
  have n: "nat \<lfloor>(2::real) ^ 53 + 1\<rfloor> = 2 ^ 53 + 1"
    by (simp add: nat_add_distrib)
  have b: "binade (2 ^ 53 + 1) = 53"
    unfolding binade_def n using floorlog_54 by simp
  have r: "round_half_even ((2 ^ 53 + 1) / 2) = 2 ^ 52"
    by (simp add: round_half_even_def Let_def add_divide_distrib)
  show ?thesis
    using b[simplified] r[simplified]
    by (simp add: round64_def nearest_def scale2_def Let_def)
qed

subsection \<open>Coercion to UTF-8\<close>

lemma utf8_coerce_eq_Nil [simp]: "utf8_coerce s = [] \<longleftrightarrow> s = []"
  by (cases s) (auto simp: replacement_def split: nat.splits)

lemma utf8_coerce_ascii:
  "\<forall>c\<in>set s. of_char c < (128::nat) \<Longrightarrow> utf8_coerce s = s"
  by (induction s) (auto simp: Let_def)

lemma valid_utf8_ascii: "\<forall>c\<in>set s. of_char c < (128::nat) \<Longrightarrow> valid_utf8 s"
  by (simp add: valid_utf8_def utf8_coerce_ascii)

subsection \<open>The codec, the stub and single reads\<close>

lemma json_Marshal_Finite:
  "Balance a = Finite x \<Longrightarrow>
   json_Marshal a = Inr (Encoded (coerced a))"
  by (simp add: json_Marshal_def)

lemma json_Marshal_Inr:
  "json_Marshal a = Inr v \<Longrightarrow>
   v = Encoded (coerced a) \<and>
   (\<exists>x. Balance a = Finite x)"
  by (auto simp: json_Marshal_def split: float64.splits)

lemma list_all_update:
  "list_all P w \<Longrightarrow> P (k, v) \<Longrightarrow> list_all P (AList.update k v w)"
  by (induction w) auto

lemma list_all_delete: "list_all P w \<Longrightarrow> list_all P (AList.delete k w)"
  by (auto simp: AList.delete_eq list_all_iff)

lemma list_all_lookup: "list_all P w \<Longrightarrow> map_of w k = Some v \<Longrightarrow> P (k, v)"
  by (auto simp: list_all_iff dest: map_of_SomeD)

lemma ReadAccount_Inr:
  "ReadAccount c k w = Inr a \<Longrightarrow> map_of w k = Some (Encoded a)"
  by (auto simp: ReadAccount_def GetState_def
           split: option.splits sum.splits bytes.splits elim: json_Unmarshal.elims)

lemma ReadAccount_present:
  "get_fault c k = None \<Longrightarrow> map_of w k = Some (Encoded a) \<Longrightarrow> ReadAccount c k w = Inr a"
  by (simp add: ReadAccount_def GetState_def)

lemma coerced_simps [simp]:
  "ID (coerced a) = utf8_coerce (ID a)"
  "Owner (coerced a) = utf8_coerce (Owner a)"
  "Balance (coerced a) = Balance a"
  by (simp_all add: coerced_def)

lemma InitLedger_seeds:
  "snd (InitLedger no_faults []) = map (\<lambda>a. (ID a, Encoded a)) accounts"
  by (simp add: InitLedger_def accounts_def json_Marshal_def coerced_def PutState_def
        no_faults_def utf8_coerce_ascii)

subsection \<open>What a transfer writes\<close>

lemma TransferFunds_success:
  assumes "ReadAccount c fromID w = Inr fa" and "ReadAccount c toID w = Inr ta"
    and "\<not> flt (Balance fa) amount"
    and "fsub (Balance fa) amount = Finite lo" and "fadd (Balance ta) amount = Finite hi"
    and "\<forall>v. put_fault c fromID v = None" and "\<forall>v. put_fault c toID v = None"
  shows "TransferFunds c fromID toID amount w =
     (Inr (),
      AList.update toID
        (Encoded (coerced (ta\<lparr>Balance := Finite hi\<rparr>)))
        (AList.update fromID
          (Encoded (coerced (fa\<lparr>Balance := Finite lo\<rparr>))) w))"
  using assms by (simp add: TransferFunds_def json_Marshal_def PutState_def)

lemma TransferFunds_Inr:
  assumes "TransferFunds c fromID toID amount w = (Inr (), w')"
  shows "\<exists>fa ta lo hi. ReadAccount c fromID w = Inr fa \<and> ReadAccount c toID w = Inr ta \<and>
     \<not> flt (Balance fa) amount \<and>
     fsub (Balance fa) amount = Finite lo \<and> fadd (Balance ta) amount = Finite hi \<and>
     w' = AList.update toID
        (Encoded (coerced (ta\<lparr>Balance := Finite hi\<rparr>)))
        (AList.update fromID
          (Encoded (coerced (fa\<lparr>Balance := Finite lo\<rparr>))) w)"
  using assms
  by (auto simp: TransferFunds_def json_Marshal_def PutState_def
           split: sum.splits if_splits option.splits float64.splits)

text \<open>
  A transfer from an account to itself: the second write replaces the first, so the
  stored balance is the old one plus the amount.
\<close>

lemma TransferFunds_self:
  assumes "get_fault c A = None" and "map_of w A = Some (Encoded a)"
    and "\<not> flt (Balance a) amount"
    and "fsub (Balance a) amount = Finite lo" and "fadd (Balance a) amount = Finite hi"
    and "\<forall>v. put_fault c A v = None"
  shows "TransferFunds c A A amount w =
     (Inr (), AList.update A
        (Encoded (coerced (a\<lparr>Balance := Finite hi\<rparr>))) w)"
  using assms TransferFunds_success[of c A w a A a amount lo hi]
  by (simp add: ReadAccount_present)

text \<open>
  Between two different accounts a transfer that succeeds keeps the sum when its
  subtraction and its addition are exact.
\<close>

lemma TransferFunds_conserves:
  assumes "fromID \<noteq> toID" and "TransferFunds c fromID toID (Finite m) w = (Inr (), w')"
    and "map_of w fromID = Some (Encoded fa)" and "map_of w toID = Some (Encoded ta)"
    and "Balance fa = Finite x" and "Balance ta = Finite y"
    and "fsub (Finite x) (Finite m) = Finite (x - m)"
    and "fadd (Finite y) (Finite m) = Finite (y + m)"
  shows "pair_sum fromID toID w = Inr (round64 (x + y)) \<and>
         pair_sum fromID toID w' = Inr (round64 (x + y))"
proof -
  from TransferFunds_Inr[OF assms(2)] obtain fa' ta' lo hi where
    r: "ReadAccount c fromID w = Inr fa'" "ReadAccount c toID w = Inr ta'"
    and v: "fsub (Balance fa') (Finite m) = Finite lo" "fadd (Balance ta') (Finite m) = Finite hi"
    and w': "w' = AList.update toID
        (Encoded (coerced (ta'\<lparr>Balance := Finite hi\<rparr>)))
        (AList.update fromID
          (Encoded (coerced (fa'\<lparr>Balance := Finite lo\<rparr>))) w)"
    by blast
  have e: "fa' = fa" "ta' = ta"
    using r assms(3,4) by (auto dest: ReadAccount_Inr)
  have lh: "lo = x - m" "hi = y + m"
    using v assms(5-8) by (simp_all add: e)
  have "pair_sum fromID toID w = Inr (round64 (x + y))"
    using assms(3-6) by (simp add: pair_sum_def ReadAccount_def GetState_def no_faults_def)
  moreover have "pair_sum fromID toID w' = Inr (round64 (x + y))"
    using assms(1)
    by (simp add: w' lh pair_sum_def ReadAccount_def GetState_def no_faults_def update_conv')
  ultimately show ?thesis by blast
qed

subsection \<open>No empty key and no empty ID in a reachable world state\<close>

lemma nonempty_entry_coerced:
  "k \<noteq> [] \<Longrightarrow> ID a \<noteq> [] \<Longrightarrow> nonempty_entry (k, Encoded (coerced a))"
  by (simp add: nonempty_entry_def)

lemma nonempty_entry_lookup:
  "list_all nonempty_entry w \<Longrightarrow> map_of w k = Some v \<Longrightarrow> k \<noteq> []"
  using list_all_lookup[of nonempty_entry w k v] by (simp add: nonempty_entry_def)

lemma nonempty_entry_account:
  "list_all nonempty_entry w \<Longrightarrow> map_of w k = Some (Encoded a) \<Longrightarrow> k \<noteq> [] \<and> ID a \<noteq> []"
  using list_all_lookup[of nonempty_entry w k "Encoded a"] by (simp add: nonempty_entry_def)

lemma InitLedger_loop_nonempty:
  "list_all nonempty_entry w \<Longrightarrow> \<forall>a \<in> set as. ID a \<noteq> [] \<Longrightarrow>
   list_all nonempty_entry (snd (InitLedger_loop c as w))"
  by (induction as arbitrary: w)
     (auto simp: PutState_def list_all_update nonempty_entry_coerced
           dest!: json_Marshal_Inr split: option.splits sum.splits)

lemma InitLedger_nonempty:
  "list_all nonempty_entry w \<Longrightarrow> list_all nonempty_entry (snd (InitLedger c w))"
  unfolding InitLedger_def
  by (rule InitLedger_loop_nonempty) (simp_all add: accounts_def)

lemma CreateAccount_nonempty:
  assumes "list_all nonempty_entry w" and "empty_id_excluded (c, Create aid owner balance)"
  shows "list_all nonempty_entry (snd (CreateAccount c aid owner balance w))"
proof (cases "aid = []")
  case True
  with assms show ?thesis
    by (auto simp: CreateAccount_def PutState_def split: option.splits sum.splits)
next
  case False
  with assms(1) show ?thesis
    by (auto simp: CreateAccount_def PutState_def list_all_update nonempty_entry_coerced
             dest!: json_Marshal_Inr split: option.splits sum.splits)
qed

lemma UpdateAccount_nonempty:
  assumes "list_all nonempty_entry w"
  shows "list_all nonempty_entry (snd (UpdateAccount c aid owner balance w))"
proof (cases "map_of w aid")
  case None
  with assms show ?thesis
    by (auto simp: UpdateAccount_def AccountExists_def GetState_def split: option.splits)
next
  case (Some v)
  then have "aid \<noteq> []" using assms by (rule nonempty_entry_lookup[rotated])
  with assms show ?thesis
    by (auto simp: UpdateAccount_def PutState_def list_all_update nonempty_entry_coerced
             dest!: json_Marshal_Inr split: option.splits sum.splits)
qed

lemma DeleteAccount_nonempty:
  "list_all nonempty_entry w \<Longrightarrow> list_all nonempty_entry (snd (DeleteAccount c aid w))"
  by (auto simp: DeleteAccount_def DelState_def list_all_delete
           split: option.splits sum.splits)

lemma TransferFunds_nonempty:
  assumes "list_all nonempty_entry w"
  shows "list_all nonempty_entry (snd (TransferFunds c fromID toID amount w))"
proof (cases "ReadAccount c fromID w")
  case (Inl e)
  then show ?thesis using assms by (simp add: TransferFunds_def)
next
  case rf: (Inr fa)
  show ?thesis
  proof (cases "ReadAccount c toID w")
    case (Inl e)
    then show ?thesis using assms rf by (simp add: TransferFunds_def)
  next
    case rt: (Inr ta)
    have f: "fromID \<noteq> []" "ID fa \<noteq> []"
      using nonempty_entry_account[OF assms ReadAccount_Inr[OF rf]] by simp_all
    have t: "toID \<noteq> []" "ID ta \<noteq> []"
      using nonempty_entry_account[OF assms ReadAccount_Inr[OF rt]] by simp_all
    show ?thesis using assms rf rt f t
      by (auto simp: TransferFunds_def PutState_def list_all_update nonempty_entry_coerced
               dest!: json_Marshal_Inr split: option.splits sum.splits)
  qed
qed

lemma invoke_nonempty:
  "list_all nonempty_entry w \<Longrightarrow> empty_id_excluded (c, call) \<Longrightarrow>
   list_all nonempty_entry (snd (invoke c call w))"
  by (cases call)
     (simp_all add: InitLedger_nonempty CreateAccount_nonempty UpdateAccount_nonempty
        DeleteAccount_nonempty TransferFunds_nonempty del: empty_id_excluded.simps)

lemma run_nonempty:
  "list_all nonempty_entry w \<Longrightarrow> list_all empty_id_excluded calls \<Longrightarrow>
   list_all nonempty_entry (run calls w)"
  by (induction calls arbitrary: w)
     (auto simp: invoke_nonempty simp del: empty_id_excluded.simps)

lemma nonempty_entries_ids: "list_all nonempty_entry w \<Longrightarrow> ids_nonempty w"
  by (simp add: ids_nonempty_def list_all_iff nonempty_entry_def)

subsection \<open>Key and ID agree when the ids given are valid UTF-8\<close>












subsection \<open>Every key is held once\<close>

lemma InitLedger_loop_distinct:
  "distinct (map fst w) \<Longrightarrow> distinct (map fst (snd (InitLedger_loop c as w)))"
  by (induction as arbitrary: w)
     (auto simp: PutState_def distinct_update split: option.splits sum.splits)

lemma invoke_distinct:
  "distinct (map fst w) \<Longrightarrow> distinct (map fst (snd (invoke c call w)))"
  by (cases call)
     (auto simp: InitLedger_def InitLedger_loop_distinct CreateAccount_def UpdateAccount_def
        DeleteAccount_def TransferFunds_def PutState_def DelState_def
        distinct_update distinct_delete
        split: option.splits sum.splits)

lemma run_distinct: "distinct (map fst w) \<Longrightarrow> distinct (map fst (run calls w))"
  by (induction calls arbitrary: w) (auto simp: invoke_distinct)

subsection \<open>The enumeration loop\<close>

lemma loop_all_decode:
  "\<forall>j<length it. next_fault c (i + j) = None \<Longrightarrow>
   \<forall>v\<in>snd ` set it. \<exists>a. v = Encoded a \<Longrightarrow>
   \<exists>accs. GetAllAccounts_loop c i it acc = Inr (acc @ accs) \<and>
          map Encoded accs = map snd it"
proof (induction it arbitrary: i acc)
  case Nil
  then show ?case by simp
next
  case (Cons q rest)
  from Cons.prems(2) obtain a where a: "snd q = Encoded a" by auto
  from Cons.prems(1) have n0: "next_fault c i = None" by force
  have "\<forall>j<length rest. next_fault c (Suc i + j) = None"
    using Cons.prems(1) by force
  moreover have "\<forall>v\<in>snd ` set rest. \<exists>a. v = Encoded a"
    using Cons.prems(2) by auto
  ultimately obtain accs where
    "GetAllAccounts_loop c (Suc i) rest (acc @ [a]) = Inr ((acc @ [a]) @ accs)"
    "map Encoded accs = map snd rest"
    using Cons.IH[of "Suc i" "acc @ [a]"] by blast
  then show ?case using a n0 by (intro exI[of _ "a # accs"]) simp
qed

lemma loop_malformed:
  "\<forall>j<length it. next_fault c (i + j) = None \<Longrightarrow>
   \<exists>v\<in>snd ` set it. \<exists>s. v = Malformed s \<Longrightarrow>
   GetAllAccounts_loop c i it acc = Inl UnmarshalError"
proof (induction it arbitrary: i acc)
  case Nil
  then show ?case by simp
next
  case (Cons q rest)
  from Cons.prems(1) have n0: "next_fault c i = None" by force
  have nr: "\<forall>j<length rest. next_fault c (Suc i + j) = None"
    using Cons.prems(1) by force
  show ?case
  proof (cases "snd q")
    case (Malformed s)
    then show ?thesis using n0 by simp
  next
    case (Encoded a)
    with Cons.prems(2) have "\<exists>v\<in>snd ` set rest. \<exists>s. v = Malformed s" by auto
    from Cons.IH[OF nr this] show ?thesis using n0 Encoded by simp
  qed
qed


section \<open>The claims\<close>

subsection \<open>A transfer from an account to itself (C1)\<close>

text \<open>
  Claim C1 says that \<open>Transfer(A, A, m)\<close> on an account \<open>A\<close> with stored balance
  \<open>b \<ge> m\<close> leaves the stored balance at \<open>b\<close>. \<open>TransferFunds\<close> has no case for
  \<open>fromID = toID\<close>: it reads the account twice, writes \<open>b - m\<close> under \<open>A\<close> and then
  \<open>b + m\<close> under \<open>A\<close>, and the second write stays (lemma \<open>TransferFunds_self\<close>).
  Evaluated on one account with balance 1000 and the amount 300, the transfer succeeds
  and the stored balance is 1300, not 1000.
\<close>

theorem TransferFunds_self_transfer_mints:
  "TransferFunds no_faults ''account1'' ''account1'' (Finite 300)
     [(''account1'',
       Encoded \<lparr>ID = ''account1'', Owner = ''Tomoko'', Balance = Finite 1000\<rparr>)] =
   (Inr (),
     [(''account1'',
       Encoded \<lparr>ID = ''account1'', Owner = ''Tomoko'', Balance = Finite 1300\<rparr>)])"
proof -
  have a: "round64 700 = Finite 700"
    using round64_of_int[of 700] by simp
  have b: "round64 1300 = Finite 1300"
    using round64_of_int[of 1300] by simp
  show ?thesis
    by (simp add: TransferFunds_def ReadAccount_def GetState_def json_Marshal_def coerced_def
          PutState_def no_faults_def fsub_def a b utf8_coerce_ascii)
qed

subsection \<open>Conservation over the pair (C2)\<close>

text \<open>
  Claim C2 says that every transfer that succeeds keeps the sum of the stored balances
  of the two accounts. Between two different accounts it does when the subtraction and
  the addition are exact (lemma \<open>TransferFunds_conserves\<close>). A transfer from an account
  to itself also succeeds, and there the sum changes: on the seeded ledger, with
  \<open>account2\<close> as source and as destination and the amount 500, the sum of the two
  stored balances is 4000 before and 5000 after.
\<close>

theorem TransferFunds_self_transfer_pair_sum:
  "pair_sum ''account2'' ''account2'' (snd (InitLedger no_faults [])) = Inr (Finite 4000) \<and>
   fst (TransferFunds no_faults ''account2'' ''account2'' (Finite 500)
          (snd (InitLedger no_faults []))) = Inr () \<and>
   pair_sum ''account2'' ''account2''
     (snd (TransferFunds no_faults ''account2'' ''account2'' (Finite 500)
          (snd (InitLedger no_faults [])))) = Inr (Finite 5000)"
proof -
  have a: "round64 1500 = Finite 1500"
    using round64_of_int[of 1500] by simp
  have b: "round64 2500 = Finite 2500"
    using round64_of_int[of 2500] by simp
  have c: "round64 4000 = Finite 4000"
    using round64_of_int[of 4000] by simp
  have d: "round64 5000 = Finite 5000"
    using round64_of_int[of 5000] by simp
  show ?thesis
    unfolding InitLedger_seeds accounts_def
    by (simp add: pair_sum_def TransferFunds_def ReadAccount_def GetState_def json_Marshal_def
          coerced_def PutState_def no_faults_def fsub_def a b c d utf8_coerce_ascii)
qed

subsection \<open>Insufficient funds (C3)\<close>

text \<open>
  Claim C3. For every pair of accounts held under \<open>fromID\<close> and \<open>toID\<close> and every
  amount greater than the stored balance of the source, \<open>TransferFunds\<close> fails and
  leaves the whole world state as it was: nothing is written. When the two reads of
  the stub succeed, the error is the insufficient-funds error that names \<open>fromID\<close>.
\<close>

theorem TransferFunds_insufficient_funds:
  assumes "map_of w fromID = Some (Encoded fromAccount)"
    and "map_of w toID = Some (Encoded toAccount)"
    and "flt (Balance fromAccount) amount"
  shows "(\<exists>err. TransferFunds c fromID toID amount w = (Inl err, w)) \<and>
         (get_fault c fromID = None \<and> get_fault c toID = None \<longrightarrow>
            TransferFunds c fromID toID amount w = (Inl (InsufficientFunds fromID), w))"
  using assms
  by (auto simp: TransferFunds_def ReadAccount_def GetState_def split: option.splits)

text \<open>
  On the seeded ledger, \<open>account1\<close> holds 1000: a transfer of 99999 to \<open>account2\<close>
  is refused and the ledger is unchanged.
\<close>

theorem TransferFunds_insufficient_funds_witness:
  "TransferFunds no_faults ''account1'' ''account2'' (Finite 99999)
     (snd (InitLedger no_faults [])) =
     (Inl (InsufficientFunds ''account1''), snd (InitLedger no_faults []))"
proof -
  have w: "map_of (snd (InitLedger no_faults [])) ''account1'' =
             Some (Encoded \<lparr>ID = ''account1'', Owner = ''Tomoko'', Balance = Finite 1000\<rparr>)"
          "map_of (snd (InitLedger no_faults [])) ''account2'' =
             Some (Encoded \<lparr>ID = ''account2'', Owner = ''Brad'', Balance = Finite 2000\<rparr>)"
    unfolding InitLedger_seeds accounts_def by simp_all
  have f: "\<And>k. get_fault no_faults k = None" by (simp add: no_faults_def)
  show ?thesis
    using TransferFunds_insufficient_funds[OF w, of "Finite 99999" no_faults] f by simp
qed

subsection \<open>Non-empty IDs (C4)\<close>

text \<open>
  Claim C4 says that no reachable world state holds an account with an empty ID, and
  that \<open>Create\<close> never stores one. The contract never looks at the id it is given:
  on a stub that accepts a write under the empty key, \<open>CreateAccount\<close> with the empty
  id succeeds on the empty ledger and stores an account whose ID is empty.
\<close>

theorem CreateAccount_empty_id_stored:
  "CreateAccount no_faults [] ''Tomoko'' (Finite 1000) [] =
     (Inr (), [([], Encoded \<lparr>ID = [], Owner = ''Tomoko'', Balance = Finite 1000\<rparr>)]) \<and>
   \<not> ids_nonempty (snd (CreateAccount no_faults [] ''Tomoko'' (Finite 1000) []))"
  by (simp add: CreateAccount_def AccountExists_def GetState_def json_Marshal_def coerced_def
        PutState_def no_faults_def ids_nonempty_def utf8_coerce_ascii)

text \<open>
  Claim C4, amended. In every world state reached from the empty ledger by invocations
  of which each \<open>Create\<close> is given a non-empty id or runs on a stub that rejects its
  write, every account held in the world state has a non-empty ID.
\<close>

theorem ids_nonempty_reachable:
  assumes "list_all empty_id_excluded calls"
  shows "ids_nonempty (run calls [])"
  using assms by (intro nonempty_entries_ids run_nonempty) simp_all

text \<open>
  A run that seeds the ledger, creates \<open>account7\<close>, tries to create an account with
  the empty id on a stub that rejects the empty key, and transfers between two accounts.
\<close>

theorem ids_nonempty_reachable_witness:
  "ids_nonempty (run
     [(no_faults, Initialize),
      (no_faults, Create ''account7'' ''Noor'' (Finite 10)),
      (no_faults\<lparr>put_fault := \<lambda>k v. if k = [] then Some ''key must not be an empty string'' else None\<rparr>,
         Create [] ''Bob'' (Finite 1)),
      (no_faults, Transfer ''account7'' ''account1'' (Finite 4))] [])"
  using ids_nonempty_reachable[of
     "[(no_faults, Initialize),
      (no_faults, Create ''account7'' ''Noor'' (Finite 10)),
      (no_faults\<lparr>put_fault := \<lambda>k v. if k = [] then Some ''key must not be an empty string'' else None\<rparr>,
         Create [] ''Bob'' (Finite 1)),
      (no_faults, Transfer ''account7'' ''account1'' (Finite 4))]"]
  by (simp add: json_Marshal_def)

subsection \<open>Existence gating (C5)\<close>

text \<open>
  Claim C5. \<open>CreateAccount\<close> on an id that holds a value fails and leaves the world
  state, so also the record under that id, unchanged; \<open>UpdateAccount\<close> and
  \<open>DeleteAccount\<close> on an id that holds no value fail and leave the world state
  unchanged. When the read of the stub succeeds, the error is \<open>AlreadyExists id\<close> for
  \<open>CreateAccount\<close> and \<open>DoesNotExist id\<close> for the other two.
\<close>

theorem existence_gating:
  "(map_of w aid \<noteq> None \<longrightarrow>
      (\<exists>err. CreateAccount c aid owner balance w = (Inl err, w)) \<and>
      (get_fault c aid = None \<longrightarrow>
         CreateAccount c aid owner balance w = (Inl (AlreadyExists aid), w))) \<and>
   (map_of w aid = None \<longrightarrow>
      (\<exists>err. UpdateAccount c aid owner balance w = (Inl err, w)) \<and>
      (\<exists>err. DeleteAccount c aid w = (Inl err, w)) \<and>
      (get_fault c aid = None \<longrightarrow>
         UpdateAccount c aid owner balance w = (Inl (DoesNotExist aid), w) \<and>
         DeleteAccount c aid w = (Inl (DoesNotExist aid), w)))"
  by (auto simp: CreateAccount_def UpdateAccount_def DeleteAccount_def AccountExists_def
        GetState_def split: option.splits)

theorem existence_gating_witness:
  "CreateAccount no_faults ''account1'' ''Eve'' (Finite 7)
     [(''account1'',
       Encoded \<lparr>ID = ''account1'', Owner = ''Tomoko'', Balance = Finite 1000\<rparr>)] =
     (Inl (AlreadyExists ''account1''),
      [(''account1'',
        Encoded \<lparr>ID = ''account1'', Owner = ''Tomoko'', Balance = Finite 1000\<rparr>)]) \<and>
   UpdateAccount no_faults ''account9'' ''Eve'' (Finite 7)
     [(''account1'',
       Encoded \<lparr>ID = ''account1'', Owner = ''Tomoko'', Balance = Finite 1000\<rparr>)] =
     (Inl (DoesNotExist ''account9''),
      [(''account1'',
        Encoded \<lparr>ID = ''account1'', Owner = ''Tomoko'', Balance = Finite 1000\<rparr>)]) \<and>
   DeleteAccount no_faults ''account9''
     [(''account1'',
       Encoded \<lparr>ID = ''account1'', Owner = ''Tomoko'', Balance = Finite 1000\<rparr>)] =
     (Inl (DoesNotExist ''account9''),
      [(''account1'',
        Encoded \<lparr>ID = ''account1'', Owner = ''Tomoko'', Balance = Finite 1000\<rparr>)])"
proof -
  have f: "\<And>k. get_fault no_faults k = None" by (simp add: no_faults_def)
  show ?thesis
    using existence_gating[where c = no_faults and aid = "''account1''" and owner = "''Eve''"
        and balance = "Finite 7" and w = "[(''account1'',
          Encoded \<lparr>ID = ''account1'', Owner = ''Tomoko'', Balance = Finite 1000\<rparr>)]"]
      existence_gating[where c = no_faults and aid = "''account9''" and owner = "''Eve''"
        and balance = "Finite 7" and w = "[(''account1'',
          Encoded \<lparr>ID = ''account1'', Owner = ''Tomoko'', Balance = Finite 1000\<rparr>)]"]
      f
    by simp
qed

subsection \<open>Create, then read (C6)\<close>

text \<open>
  Claim C6 says that for every id, owner and balance with the id absent,
  \<open>CreateAccount\<close> succeeds and \<open>ReadAccount\<close> then returns that id, owner and
  balance. \<^verbatim>\<open>json.Marshal\<close> refuses a balance that is not finite, and it replaces
  bytes that are not valid UTF-8: with the balance NaN \<open>CreateAccount\<close> returns the
  codec's error and writes nothing, and an owner or an id that ends in the byte \<open>0xFF\<close>
  is read back ending in U+FFFD.
\<close>

theorem CreateAccount_roundtrip_refuted:
  "CreateAccount no_faults ''account7'' ''Noor'' NaN [] = (Inl MarshalError, []) \<and>
   fst (CreateAccount no_faults ''account7'' (''Noor'' @ [CHR 0xFF]) (Finite 75.5) []) =
     Inr () \<and>
   ReadAccount no_faults ''account7''
     (snd (CreateAccount no_faults ''account7'' (''Noor'' @ [CHR 0xFF]) (Finite 75.5) [])) =
     Inr \<lparr>ID = ''account7'', Owner = ''Noor'' @ [CHR 0xEF, CHR 0xBF, CHR 0xBD],
          Balance = Finite 75.5\<rparr> \<and>
   ReadAccount no_faults ''account7''
     (snd (CreateAccount no_faults ''account7'' (''Noor'' @ [CHR 0xFF]) (Finite 75.5) [])) \<noteq>
     Inr \<lparr>ID = ''account7'', Owner = ''Noor'' @ [CHR 0xFF], Balance = Finite 75.5\<rparr> \<and>
   fst (CreateAccount no_faults (''acct'' @ [CHR 0xFF]) ''Noor'' (Finite 75.5) []) = Inr () \<and>
   ReadAccount no_faults (''acct'' @ [CHR 0xFF])
     (snd (CreateAccount no_faults (''acct'' @ [CHR 0xFF]) ''Noor'' (Finite 75.5) [])) =
     Inr \<lparr>ID = ''acct'' @ [CHR 0xEF, CHR 0xBF, CHR 0xBD], Owner = ''Noor'',
          Balance = Finite 75.5\<rparr>"
  by (simp add: CreateAccount_def AccountExists_def ReadAccount_def GetState_def
        json_Marshal_def coerced_def PutState_def no_faults_def replacement_def)

text \<open>
  Claim C6, amended. For every id and owner that are valid UTF-8 and every finite
  balance, with the id absent from the world state, on a stub that serves the read and
  the write of the id, \<open>CreateAccount\<close> succeeds, and \<open>ReadAccount\<close> of the id in the
  world state it leaves returns the account with exactly that id, owner and balance.
\<close>

theorem CreateAccount_ReadAccount_roundtrip:
  assumes "map_of w aid = None"
    and "valid_utf8 aid" and "valid_utf8 owner" and "balance = Finite x"
    and "get_fault c aid = None"
    and "put_fault c aid (Encoded \<lparr>ID = aid, Owner = owner, Balance = balance\<rparr>) = None"
    and "get_fault c' aid = None"
  shows "fst (CreateAccount c aid owner balance w) = Inr () \<and>
     ReadAccount c' aid (snd (CreateAccount c aid owner balance w)) =
       Inr \<lparr>ID = aid, Owner = owner, Balance = balance\<rparr>"
  using assms
  by (simp add: CreateAccount_def AccountExists_def ReadAccount_def GetState_def PutState_def
        json_Marshal_def coerced_def valid_utf8_def update_conv')

theorem CreateAccount_ReadAccount_roundtrip_witness:
  "fst (CreateAccount no_faults ''account7'' ''Noor'' (Finite 75.5)
          (snd (InitLedger no_faults []))) = Inr () \<and>
   ReadAccount no_faults ''account7''
     (snd (CreateAccount no_faults ''account7'' ''Noor'' (Finite 75.5)
          (snd (InitLedger no_faults [])))) =
     Inr \<lparr>ID = ''account7'', Owner = ''Noor'', Balance = Finite 75.5\<rparr>"
proof -
  have w: "map_of (snd (InitLedger no_faults [])) ''account7'' = None"
    unfolding InitLedger_seeds accounts_def by simp
  have v: "valid_utf8 ''account7''" "valid_utf8 ''Noor''"
    by (simp_all add: valid_utf8_ascii)
  have f: "\<And>k. get_fault no_faults k = None" "\<And>k v. put_fault no_faults k v = None"
    by (simp_all add: no_faults_def)
  show ?thesis
    using CreateAccount_ReadAccount_roundtrip[OF w v refl f(1) f(2) f(1)] by simp
qed

subsection \<open>Non-positive amounts (C7)\<close>

text \<open>
  Claim C7 says that for every pair of accounts and every amount \<open>\<le> 0\<close> that the
  source covers, the transfer succeeds, the stored balance of the source going down by
  the amount and that of the destination up by it. With \<open>fromID = toID\<close> the two
  cannot both hold for a negative amount: one account with balance 10 and the amount
  -5 is left with the balance 5, not with 15. And between two accounts the transfer
  fails when a new balance is not finite: with the source at \<open>2 ^ 1023\<close> and the
  amount \<open>- 2 ^ 1023\<close> the difference is \<open>+Inf\<close>, which \<^verbatim>\<open>json.Marshal\<close> refuses.
\<close>

theorem TransferFunds_nonpositive_refuted:
  "fst (TransferFunds no_faults ''a'' ''a'' (Finite (- 5))
          [(''a'', Encoded \<lparr>ID = ''a'', Owner = ''o'', Balance = Finite 10\<rparr>)]) = Inr () \<and>
   map_of (snd (TransferFunds no_faults ''a'' ''a'' (Finite (- 5))
          [(''a'', Encoded \<lparr>ID = ''a'', Owner = ''o'', Balance = Finite 10\<rparr>)])) ''a'' =
     Some (Encoded \<lparr>ID = ''a'', Owner = ''o'', Balance = Finite 5\<rparr>) \<and>
   fsub (Finite 10) (Finite (- 5)) = Finite 15 \<and>
   fle (Finite (- (2 ^ 1023))) (Finite (2 ^ 1023)) \<and>
   fle (Finite (- (2 ^ 1023))) (Finite 0) \<and>
   TransferFunds no_faults ''a'' ''b'' (Finite (- (2 ^ 1023)))
     [(''a'', Encoded \<lparr>ID = ''a'', Owner = ''o'', Balance = Finite (2 ^ 1023)\<rparr>),
      (''b'', Encoded \<lparr>ID = ''b'', Owner = ''p'', Balance = Finite 0\<rparr>)] =
     (Inl MarshalError,
      [(''a'', Encoded \<lparr>ID = ''a'', Owner = ''o'', Balance = Finite (2 ^ 1023)\<rparr>),
       (''b'', Encoded \<lparr>ID = ''b'', Owner = ''p'', Balance = Finite 0\<rparr>)])"
proof -
  have a: "round64 15 = Finite 15"
    using round64_of_int[of 15] by simp
  have b: "round64 5 = Finite 5"
    using round64_of_int[of 5] by simp
  show ?thesis
    apply (intro conjI)
    subgoal
      by (simp add: TransferFunds_def ReadAccount_def GetState_def json_Marshal_def
            coerced_def PutState_def no_faults_def fsub_def a b utf8_coerce_ascii)
    subgoal
      by (simp add: TransferFunds_def ReadAccount_def GetState_def json_Marshal_def
            coerced_def PutState_def no_faults_def fsub_def a b utf8_coerce_ascii)
    subgoal by (simp add: fsub_def a)
    subgoal by simp
    subgoal by simp
    subgoal
      by (simp add: TransferFunds_def ReadAccount_def GetState_def json_Marshal_def
            no_faults_def fsub_def round64_def)
    done
qed

text \<open>
  Claim C7, amended. For every pair of different ids \<open>fromID\<close> and \<open>toID\<close> that hold
  accounts, and every amount \<open>\<le> 0\<close> that is at most the stored balance of the source,
  when the \<^verbatim>\<open>float64\<close> difference and sum that make the new balances are finite, on a
  stub that serves the two reads and the two writes, \<open>TransferFunds\<close> succeeds;
  afterwards the source holds its account with the balance minus the amount and the
  destination its account with the balance plus the amount, both as \<^verbatim>\<open>float64\<close>
  results and as \<^verbatim>\<open>json.Marshal\<close> writes them.
\<close>

theorem TransferFunds_nonpositive:
  assumes "fromID \<noteq> toID"
    and "map_of w fromID = Some (Encoded fa)" and "map_of w toID = Some (Encoded ta)"
    and "fle amount (Balance fa)" and "fle amount (Finite 0)"
    and "fsub (Balance fa) amount = Finite lo" and "fadd (Balance ta) amount = Finite hi"
    and "get_fault c fromID = None" and "get_fault c toID = None"
    and "\<forall>v. put_fault c fromID v = None" and "\<forall>v. put_fault c toID v = None"
  shows "fst (TransferFunds c fromID toID amount w) = Inr () \<and>
     map_of (snd (TransferFunds c fromID toID amount w)) fromID =
       Some (Encoded (coerced (fa\<lparr>Balance := fsub (Balance fa) amount\<rparr>))) \<and>
     map_of (snd (TransferFunds c fromID toID amount w)) toID =
       Some (Encoded (coerced (ta\<lparr>Balance := fadd (Balance ta) amount\<rparr>)))"
  using assms TransferFunds_success[of c fromID w fa toID ta amount lo hi]
  by (simp add: ReadAccount_present fle_not_flt update_conv')

text \<open>
  On the seeded ledger a transfer of -300 from \<open>account1\<close> to \<open>account2\<close> succeeds
  and moves 300 the other way: \<open>account1\<close> then holds 1300 and \<open>account2\<close> 1700.
\<close>

theorem TransferFunds_nonpositive_witness:
  "fst (TransferFunds no_faults ''account1'' ''account2'' (Finite (- 300))
          (snd (InitLedger no_faults []))) = Inr () \<and>
   map_of (snd (TransferFunds no_faults ''account1'' ''account2'' (Finite (- 300))
          (snd (InitLedger no_faults [])))) ''account1'' =
     Some (Encoded \<lparr>ID = ''account1'', Owner = ''Tomoko'', Balance = Finite 1300\<rparr>) \<and>
   map_of (snd (TransferFunds no_faults ''account1'' ''account2'' (Finite (- 300))
          (snd (InitLedger no_faults [])))) ''account2'' =
     Some (Encoded \<lparr>ID = ''account2'', Owner = ''Brad'', Balance = Finite 1700\<rparr>)"
proof -
  have w: "map_of (snd (InitLedger no_faults [])) ''account1'' =
             Some (Encoded \<lparr>ID = ''account1'', Owner = ''Tomoko'', Balance = Finite 1000\<rparr>)"
          "map_of (snd (InitLedger no_faults [])) ''account2'' =
             Some (Encoded \<lparr>ID = ''account2'', Owner = ''Brad'', Balance = Finite 2000\<rparr>)"
    unfolding InitLedger_seeds accounts_def by simp_all
  have a: "round64 1300 = Finite 1300"
    using round64_of_int[of 1300] by simp
  have b: "round64 1700 = Finite 1700"
    using round64_of_int[of 1700] by simp
  have f: "get_fault no_faults ''account1'' = None" "get_fault no_faults ''account2'' = None"
    "\<forall>v. put_fault no_faults ''account1'' v = None"
    "\<forall>v. put_fault no_faults ''account2'' v = None"
    by (simp_all add: no_faults_def)
  show ?thesis
    using TransferFunds_nonpositive[where fromID = "''account1''" and toID = "''account2''"
        and w = "snd (InitLedger no_faults [])" and amount = "Finite (- 300)"
        and c = no_faults and lo = 1300 and hi = 1700, OF _ w _ _ _ _ f]
    by (simp add: fsub_def a b coerced_def utf8_coerce_ascii)
qed

subsection \<open>The existence probe (C8)\<close>

text \<open>
  Claim C8. When the read of the stub succeeds, \<open>AccountExists\<close> returns whether the
  world state holds a value under the id; the value is not decoded, so a value that
  does not decode to an account still gives \<open>True\<close>; and \<open>AccountExists\<close> returns an
  error exactly when the read of the stub fails.
\<close>

theorem AccountExists_probe:
  "(get_fault c aid = None \<longrightarrow> AccountExists c aid w = Inr (map_of w aid \<noteq> None)) \<and>
   (get_fault c aid = None \<longrightarrow> map_of w aid = Some (Malformed s) \<longrightarrow>
      AccountExists c aid w = Inr True) \<and>
   ((\<exists>err. AccountExists c aid w = Inl err) \<longleftrightarrow> get_fault c aid \<noteq> None)"
  by (auto simp: AccountExists_def GetState_def split: option.splits)

theorem AccountExists_probe_witness:
  "AccountExists no_faults ''k'' [(''k'', Malformed ''{'')] = Inr True \<and>
   AccountExists no_faults ''k'' [] = Inr False \<and>
   (\<exists>err. AccountExists (no_faults\<lparr>get_fault := \<lambda>k. Some ''unavailable''\<rparr>) ''k'' [] = Inl err)"
  using AccountExists_probe[of no_faults "''k''" "[(''k'', Malformed ''{'')]" "''{''"]
    AccountExists_probe[of no_faults "''k''" "[]"]
    AccountExists_probe[of "no_faults\<lparr>get_fault := \<lambda>k. Some ''unavailable''\<rparr>" "''k''" "[]"]
  by (simp add: no_faults_def)

subsection \<open>Enumeration (C9)\<close>

text \<open>
  Claim C9. On a stub whose range scan and iterator do not fail: when every value of
  the world state decodes, \<open>GetAllAccounts\<close> returns a list with one decoded account
  for each entry of the world state; when some value does not decode, it returns the
  decoding error and no list.
\<close>

theorem GetAllAccounts_complete:
  assumes "range_fault c = None" and "\<forall>i<length w. next_fault c i = None"
  shows "((\<forall>v\<in>snd ` set w. \<exists>a. v = Encoded a) \<longrightarrow>
            (\<exists>accs. GetAllAccounts c w = Inr accs \<and> map Encoded accs = map snd w)) \<and>
         ((\<exists>v\<in>snd ` set w. \<exists>s. v = Malformed s) \<longrightarrow>
            GetAllAccounts c w = Inl UnmarshalError)"
  using assms loop_all_decode[of w c 0 "[]"] loop_malformed[of w c 0 "[]"]
  by (auto simp: GetAllAccounts_def GetStateByRange_def)

theorem GetAllAccounts_complete_witness:
  "GetAllAccounts no_faults
     [(''account1'', Encoded \<lparr>ID = ''account1'', Owner = ''Tomoko'', Balance = Finite 1000\<rparr>),
      (''account2'', Encoded \<lparr>ID = ''account2'', Owner = ''Brad'', Balance = Finite 2000\<rparr>)] =
     Inr [\<lparr>ID = ''account1'', Owner = ''Tomoko'', Balance = Finite 1000\<rparr>,
          \<lparr>ID = ''account2'', Owner = ''Brad'', Balance = Finite 2000\<rparr>] \<and>
   GetAllAccounts no_faults
     [(''account1'', Encoded \<lparr>ID = ''account1'', Owner = ''Tomoko'', Balance = Finite 1000\<rparr>),
      (''account2'', Malformed ''{''),
      (''account3'', Encoded \<lparr>ID = ''account3'', Owner = ''Jin Soo'', Balance = Finite 3000\<rparr>)] =
     Inl UnmarshalError"
proof -
  have f: "range_fault no_faults = None" "\<And>n. \<forall>i<n. next_fault no_faults i = None"
    by (simp_all add: no_faults_def)
  show ?thesis
    using GetAllAccounts_complete[where c = no_faults and w =
        "[(''account1'', Encoded \<lparr>ID = ''account1'', Owner = ''Tomoko'', Balance = Finite 1000\<rparr>),
          (''account2'', Encoded \<lparr>ID = ''account2'', Owner = ''Brad'', Balance = Finite 2000\<rparr>)]",
        OF f(1) f(2)]
      GetAllAccounts_complete[where c = no_faults and w =
        "[(''account1'', Encoded \<lparr>ID = ''account1'', Owner = ''Tomoko'', Balance = Finite 1000\<rparr>),
          (''account2'', Malformed ''{''),
          (''account3'', Encoded \<lparr>ID = ''account3'', Owner = ''Jin Soo'', Balance = Finite 3000\<rparr>)]",
        OF f(1) f(2)]
    by (auto simp: map_eq_Cons_conv)
qed

subsection \<open>Key and ID agree (C10)\<close>




end
